theory Spec2Isabelle
  imports Main
begin

section \<open>Data model of the SQL query builder (orm/sql/operations.go)\<close>

text \<open>
  A Go \<^verbatim>\<open>interface{}\<close> value, as far as the builder looks at it: the untyped nil,
  scalars, a \<^verbatim>\<open>[]interface{}\<close> slice (the only type the assertions
  \<^verbatim>\<open>value.([]interface{})\<close> accept) and a \<^verbatim>\<open>map[string]string\<close> (the only
  non-string type the ORDER BY type switch accepts).

  A Go map is the list of its entries in the order in which a \<^verbatim>\<open>range\<close> statement
  visits them. The language leaves that order unspecified, so every statement below is
  made for an arbitrary list; a lookup \<^verbatim>\<open>m[k]\<close> is \<open>map_of\<close>.
\<close>

datatype gvalue =
    GNil
  | GBool bool
  | GInt int
  | GStr string
  | GSlice "gvalue list"
  | GStrMap "(string \<times> string) list"

type_synonym 'v gomap = "(string \<times> 'v) list"

text \<open>The only run-time failure inside \<^verbatim>\<open>Build\<close>: a failed type assertion.\<close>

datatype panic = TypeAssertion

definition OperatorEqual :: string where "OperatorEqual = ''=''"
definition OperatorGreater :: string where "OperatorGreater = ''>''"
definition OperatorLessThan :: string where "OperatorLessThan = ''<''"
definition OperatorIn :: string where "OperatorIn = ''IN''"
definition OperatorBetween :: string where "OperatorBetween = ''BETWEEN''"
definition OperatorLike :: string where "OperatorLike = ''LIKE''"
definition OperatorNotIn :: string where "OperatorNotIn = ''NOT IN''"
definition OperatorNotLike :: string where "OperatorNotLike = ''NOT LIKE''"

lemmas Operator_defs =
  OperatorEqual_def OperatorGreater_def OperatorLessThan_def OperatorIn_def
  OperatorBetween_def OperatorLike_def OperatorNotIn_def OperatorNotLike_def

text \<open>
  The struct \<^verbatim>\<open>QueryBuilder\<close>. \<open>Model\<close> keeps what reflection reads from the model:
  \<open>None\<close> for a nil model, otherwise the struct's fields in declaration order, each
  with the flag "exported" (\<^verbatim>\<open>PkgPath == ""\<close>).
\<close>

record QueryBuilder =
  Table :: string
  Columns :: "string list"
  WhereConditions :: "gvalue gomap list"
  WhereOperators :: "string gomap list"
  OrderByFields :: "gvalue list"
  LimitCount :: int
  CursorField :: string
  CursorValue :: gvalue
  Parameters :: "gvalue list"
  Model :: "(string \<times> bool) list option"

definition NewQueryBuilder :: "string \<Rightarrow> (string \<times> bool) list option \<Rightarrow> QueryBuilder" where
  "NewQueryBuilder table model =
     \<lparr> Table = table, Columns = [], WhereConditions = [], WhereOperators = [],
       OrderByFields = [], LimitCount = 0, CursorField = [], CursorValue = GNil,
       Parameters = [], Model = model \<rparr>"

definition GetColumnsFromStruct :: "(string \<times> bool) list \<Rightarrow> string list" where
  "GetColumnsFromStruct fs = map fst (filter snd fs)"

definition Select :: "string list \<Rightarrow> QueryBuilder \<Rightarrow> QueryBuilder" where
  "Select columns qb =
     (if length columns > 0 then qb\<lparr>Columns := columns\<rparr>
      else case Model qb of
             Some fs \<Rightarrow> qb\<lparr>Columns := GetColumnsFromStruct fs\<rparr>
           | None \<Rightarrow> qb)"

definition Where :: "gvalue gomap list \<Rightarrow> string gomap list \<Rightarrow> QueryBuilder \<Rightarrow> QueryBuilder" where
  "Where conditions operators qb =
     qb\<lparr>WhereConditions := conditions, WhereOperators := operators\<rparr>"

definition OrderBy :: "gvalue list \<Rightarrow> QueryBuilder \<Rightarrow> QueryBuilder" where
  "OrderBy fs qb = qb\<lparr>OrderByFields := fs\<rparr>"

definition Limit :: "int \<Rightarrow> QueryBuilder \<Rightarrow> QueryBuilder" where
  "Limit limit qb = qb\<lparr>LimitCount := limit\<rparr>"

definition Cursor :: "string \<Rightarrow> gvalue \<Rightarrow> QueryBuilder \<Rightarrow> QueryBuilder" where
  "Cursor field v qb = qb\<lparr>CursorField := field, CursorValue := v\<rparr>"

section \<open>Library functions used by the builder\<close>

text \<open>\<^verbatim>\<open>strings.Join\<close>.\<close>

fun join :: "string \<Rightarrow> string list \<Rightarrow> string" where
  "join sep [] = []"
| "join sep [x] = x"
| "join sep (x # y # ys) = x @ sep @ join sep (y # ys)"

text \<open>The verb \<^verbatim>\<open>%d\<close> of \<^verbatim>\<open>fmt.Sprintf\<close>: decimal digits, a minus sign first.\<close>

definition digit :: "nat \<Rightarrow> char" where
  "digit d = ''0123456789'' ! d"

function digits :: "nat \<Rightarrow> string" where
  "digits n = (if n < 10 then [digit n] else digits (n div 10) @ [digit (n mod 10)])"
  by pat_completeness auto
termination
  by (relation "measure id") auto

declare digits.simps [simp del]

definition sprint_d :: "int \<Rightarrow> string" where
  "sprint_d n = (if n < 0 then CHR ''-'' # digits (nat (- n)) else digits (nat n))"

section \<open>Build\<close>

text \<open>
  Lines 119-125: the operator of the entry \<open>field\<close> of the \<open>i\<close>-th condition map,
  equality when the operator list is too short or has no entry for the field.
\<close>

definition get_operator :: "string gomap list \<Rightarrow> nat \<Rightarrow> string \<Rightarrow> string" where
  "get_operator operators i field =
     (if length operators > i
      then (case map_of (operators ! i) field of Some op \<Rightarrow> op | None \<Rightarrow> OperatorEqual)
      else OperatorEqual)"

text \<open>
  Lines 128-160, the \<^verbatim>\<open>switch operator\<close>: the clause of one entry and the values
  it appends to \<^verbatim>\<open>qb.Parameters\<close>. The cases are tried in the source's order.
\<close>

definition render_clause :: "string \<Rightarrow> string \<Rightarrow> gvalue \<Rightarrow> panic + (string \<times> gvalue list)" where
  "render_clause field operator v =
     (if operator = OperatorIn then
        (case v of
           GSlice vals \<Rightarrow>
             Inr (field @ '' '' @ OperatorIn @ '' ('' @
                    join '', '' (replicate (length vals) ''?'') @ '')'', vals)
         | _ \<Rightarrow> Inl TypeAssertion)
      else if operator = OperatorNotIn then
        (case v of
           GSlice vals \<Rightarrow>
             Inr (field @ '' '' @ OperatorNotIn @ '' ('' @
                    join '', '' (replicate (length vals) ''?'') @ '')'', vals)
         | _ \<Rightarrow> Inl TypeAssertion)
      else if operator = OperatorBetween then
        (case v of
           GSlice vals \<Rightarrow> Inr (field @ '' '' @ OperatorBetween @ '' ? AND ?'', vals)
         | _ \<Rightarrow> Inl TypeAssertion)
      else if operator = OperatorLike then
        Inr (field @ '' '' @ OperatorLike @ '' ?'', [v])
      else
        Inr (field @ '' '' @ operator @ '' ?'', [v]))"

text \<open>
  Lines 113-163, the inner loop over the entries of the \<open>i\<close>-th condition map. It
  threads \<^verbatim>\<open>whereClauses\<close> and \<^verbatim>\<open>qb.Parameters\<close>; a nil value is skipped before
  anything else is looked at.
\<close>

fun range_condition ::
  "string gomap list \<Rightarrow> nat \<Rightarrow> gvalue gomap \<Rightarrow> string list \<Rightarrow> gvalue list
     \<Rightarrow> panic + (string list \<times> gvalue list)" where
  "range_condition operators i [] whereClauses params = Inr (whereClauses, params)"
| "range_condition operators i ((field, v) # rest) whereClauses params =
     (if v = GNil then range_condition operators i rest whereClauses params
      else case render_clause field (get_operator operators i field) v of
             Inl e \<Rightarrow> Inl e
           | Inr (clause, vals) \<Rightarrow>
               range_condition operators i rest (whereClauses @ [clause]) (params @ vals))"

text \<open>Lines 112-164, the outer loop over \<^verbatim>\<open>qb.WhereConditions\<close> with its index.\<close>

fun range_conditions ::
  "string gomap list \<Rightarrow> nat \<Rightarrow> gvalue gomap list \<Rightarrow> string list \<Rightarrow> gvalue list
     \<Rightarrow> panic + (string list \<times> gvalue list)" where
  "range_conditions operators i [] whereClauses params = Inr (whereClauses, params)"
| "range_conditions operators i (condition # rest) whereClauses params =
     (case range_condition operators i condition whereClauses params of
        Inl e \<Rightarrow> Inl e
      | Inr (whereClauses', params') \<Rightarrow>
          range_conditions operators (Suc i) rest whereClauses' params')"

text \<open>
  Lines 170-180: the ORDER BY fragments. A string passes through, a
  \<^verbatim>\<open>map[string]string\<close> gives one fragment for each entry, any other value gives none.
\<close>

fun order_clause :: "gvalue \<Rightarrow> string list" where
  "order_clause (GStr s) = [s]"
| "order_clause (GStrMap m) = map (\<lambda>(f, direction). f @ '' '' @ direction) m"
| "order_clause _ = []"

definition order_clauses :: "gvalue list \<Rightarrow> string list" where
  "order_clauses fs = concat (map order_clause fs)"

text \<open>
  \<^verbatim>\<open>Build\<close> (lines 106-196). It returns the statement text and \<^verbatim>\<open>qb.Parameters\<close>;
  the third component is the builder after the call, whose parameter slice has grown.
  A failed type assertion ends the call with a panic; what the parameter slice holds at
  that moment is not kept. \<^verbatim>\<open>LimitCount\<close> is a Go \<^verbatim>\<open>int\<close> that is only compared with
  zero and printed, so it is an \<open>int\<close> here.
\<close>

definition Build :: "QueryBuilder \<Rightarrow> panic + (string \<times> gvalue list \<times> QueryBuilder)" where
  "Build qb =
     (let query = ''SELECT '' @ join '', '' (Columns qb) @ '' FROM '' @ Table qb @ '' '' in
      case (if length (WhereConditions qb) > 0
            then (case range_conditions (WhereOperators qb) 0 (WhereConditions qb) []
                         (Parameters qb) of
                    Inl e \<Rightarrow> Inl e
                  | Inr (whereClauses, params) \<Rightarrow>
                      Inr (query @ ''WHERE '' @ join '' AND '' whereClauses, params))
            else Inr (query, Parameters qb)) of
        Inl e \<Rightarrow> Inl e
      | Inr (query, params) \<Rightarrow>
          let query =
                (if length (OrderByFields qb) > 0
                 then query @ '' ORDER BY '' @ join '', '' (order_clauses (OrderByFields qb))
                 else query);
              (query, params) =
                (if CursorField qb \<noteq> [] \<and> CursorValue qb \<noteq> GNil
                 then (query @ '' AND '' @ CursorField qb @ '' > ? '',
                       params @ [CursorValue qb])
                 else (query, params));
              query =
                (if LimitCount qb > 0
                 then query @ '' LIMIT '' @ sprint_d (LimitCount qb)
                 else query)
          in Inr (query, params, qb\<lparr>Parameters := params\<rparr>))"

text \<open>
  The blocks of \<^verbatim>\<open>Build\<close> by name, to state what the text is made of: the
  \<^verbatim>\<open>SELECT\<close> head (line 107), the \<^verbatim>\<open>ORDER BY\<close> block (lines 169-182), the
  cursor block (lines 185-188) and the \<^verbatim>\<open>LIMIT\<close> block (lines 191-193).
\<close>

definition select_text :: "QueryBuilder \<Rightarrow> string" where
  "select_text qb = ''SELECT '' @ join '', '' (Columns qb) @ '' FROM '' @ Table qb @ '' ''"

definition order_text :: "QueryBuilder \<Rightarrow> string" where
  "order_text qb =
     (if length (OrderByFields qb) > 0
      then '' ORDER BY '' @ join '', '' (order_clauses (OrderByFields qb)) else [])"

definition cursor_on :: "QueryBuilder \<Rightarrow> bool" where
  "cursor_on qb = (CursorField qb \<noteq> [] \<and> CursorValue qb \<noteq> GNil)"

definition cursor_text :: "QueryBuilder \<Rightarrow> string" where
  "cursor_text qb = (if cursor_on qb then '' AND '' @ CursorField qb @ '' > ? '' else [])"

definition cursor_params :: "QueryBuilder \<Rightarrow> gvalue list" where
  "cursor_params qb = (if cursor_on qb then [CursorValue qb] else [])"

definition limit_text :: "QueryBuilder \<Rightarrow> string" where
  "limit_text qb =
     (if LimitCount qb > 0 then '' LIMIT '' @ sprint_d (LimitCount qb) else [])"

text \<open>What a caller of \<^verbatim>\<open>Build\<close> receives: the text and the parameter list.\<close>

definition returned :: "panic + (string \<times> gvalue list \<times> QueryBuilder) \<Rightarrow> panic + (string \<times> gvalue list)" where
  "returned r = map_sum id (\<lambda>(query, params, qb'). (query, params)) r"

section \<open>Conditions as the specification describes them\<close>

text \<open>
  The specification's condition model (section 3): the entries \<open>(field, operator, value)\<close>
  of all condition maps in the order the loops visit them, without those whose value is
  nil, each with the operator \<open>get_operator\<close> finds for it.
\<close>

definition not_nil :: "string \<times> gvalue \<Rightarrow> bool" where
  "not_nil e = (snd e \<noteq> GNil)"

fun cond_entries :: "string gomap list \<Rightarrow> nat \<Rightarrow> gvalue gomap list \<Rightarrow> (string \<times> string \<times> gvalue) list" where
  "cond_entries operators i [] = []"
| "cond_entries operators i (condition # rest) =
     map (\<lambda>(field, v). (field, get_operator operators i field, v)) (filter not_nil condition)
     @ cond_entries operators (Suc i) rest"

definition entries :: "QueryBuilder \<Rightarrow> (string \<times> string \<times> gvalue) list" where
  "entries qb = cond_entries (WhereOperators qb) 0 (WhereConditions qb)"

text \<open>
  The two loops without their accumulators: the clauses and the parameters of a list of
  entries, or the panic of the first entry whose type assertion fails.
\<close>

fun render_all :: "(string \<times> string \<times> gvalue) list \<Rightarrow> panic + (string list \<times> gvalue list)" where
  "render_all [] = Inr ([], [])"
| "render_all ((field, operator, v) # es) =
     (case render_clause field operator v of
        Inl e \<Rightarrow> Inl e
      | Inr (clause, vals) \<Rightarrow>
          (case render_all es of
             Inl e \<Rightarrow> Inl e
           | Inr (clauses, params) \<Rightarrow> Inr (clause # clauses, vals @ params)))"

text \<open>
  A rendered fragment with its bindings made explicit: literal text, and holes that stand
  for one placeholder \<open>?\<close> each and carry the value meant for it. \<open>erase\<close> is the text a
  driver receives, \<open>holes\<close> the values in the order of their placeholders.
\<close>

datatype piece = Lit string | Hole gvalue

fun erase_piece :: "piece \<Rightarrow> string" where
  "erase_piece (Lit s) = s"
| "erase_piece (Hole v) = ''?''"

definition erase :: "piece list \<Rightarrow> string" where
  "erase ps = concat (map erase_piece ps)"

fun hole_of :: "piece \<Rightarrow> gvalue list" where
  "hole_of (Lit s) = []"
| "hole_of (Hole v) = [v]"

definition holes :: "piece list \<Rightarrow> gvalue list" where
  "holes ps = concat (map hole_of ps)"

fun lit_of :: "piece \<Rightarrow> string" where
  "lit_of (Lit s) = s"
| "lit_of (Hole v) = []"

fun intercalate :: "piece list \<Rightarrow> piece list list \<Rightarrow> piece list" where
  "intercalate sep [] = []"
| "intercalate sep [x] = x"
| "intercalate sep (x # y # ys) = x @ sep @ intercalate sep (y # ys)"

text \<open>
  The specification's table of fragments (section 4.2), each placeholder with the value
  bound to it: \<open>field IN (?, ?, ...)\<close> binds the values of the sequence in order,
  \<open>field BETWEEN ? AND ?\<close> binds the two bounds, every other operator gives
  \<open>field OP ?\<close> and binds the value itself.
\<close>

definition spec_clause :: "string \<times> string \<times> gvalue \<Rightarrow> piece list" where
  "spec_clause e =
     (case e of (field, operator, v) \<Rightarrow>
        if operator = OperatorIn \<or> operator = OperatorNotIn then
          (case v of
             GSlice vals \<Rightarrow>
               [Lit (field @ '' '' @ operator @ '' ('')]
               @ intercalate [Lit '', ''] (map (\<lambda>x. [Hole x]) vals) @ [Lit '')'']
           | _ \<Rightarrow> [])
        else if operator = OperatorBetween then
          (case v of
             GSlice [lo, hi] \<Rightarrow>
               [Lit (field @ '' '' @ operator @ '' ''), Hole lo, Lit '' AND '', Hole hi]
           | _ \<Rightarrow> [])
        else [Lit (field @ '' '' @ operator @ '' ''), Hole v])"

definition spec_where :: "QueryBuilder \<Rightarrow> piece list" where
  "spec_where qb = intercalate [Lit '' AND ''] (map spec_clause (entries qb))"

definition spec_cursor :: "QueryBuilder \<Rightarrow> piece list" where
  "spec_cursor qb =
     (if cursor_on qb
      then [Lit ('' AND '' @ CursorField qb @ '' > ''), Hole (CursorValue qb), Lit '' '']
      else [])"

text \<open>The side conditions under which the specification's table applies.\<close>

definition between_pair :: "string \<times> string \<times> gvalue \<Rightarrow> bool" where
  "between_pair e =
     (case e of (field, operator, v) \<Rightarrow>
        if operator = OperatorBetween
        then (case v of GSlice vals \<Rightarrow> length vals = 2 | _ \<Rightarrow> True)
        else True)"

definition qmark_free :: "string \<Rightarrow> bool" where
  "qmark_free s = (CHR ''?'' \<notin> set s)"

definition names_qmark_free :: "QueryBuilder \<Rightarrow> bool" where
  "names_qmark_free qb =
     (list_all (\<lambda>(field, operator, v). qmark_free field \<and> qmark_free operator) (entries qb)
      \<and> qmark_free (CursorField qb))"

text \<open>The builder without the entries whose value is nil.\<close>

definition drop_nil :: "QueryBuilder \<Rightarrow> QueryBuilder" where
  "drop_nil qb = qb\<lparr>WhereConditions := map (filter not_nil) (WhereConditions qb)\<rparr>"

text \<open>
  Two lists that show one Go map in two iteration orders: the keys of each are distinct
  and the entries are the same.
\<close>

definition same_gomap :: "'v gomap \<Rightarrow> 'v gomap \<Rightarrow> bool" where
  "same_gomap m m' = (distinct (map fst m) \<and> distinct (map fst m') \<and> set m = set m')"

text \<open>
  The maps \<open>Build\<close> ranges over are the condition maps (line 113) and the
  \<^verbatim>\<open>map[string]string\<close> elements of the ORDER BY list (line 176). The operator maps
  are only looked up. Two ORDER BY elements show the same value when they are the same
  map in two iteration orders, or are equal.
\<close>

fun same_order_field :: "gvalue \<Rightarrow> gvalue \<Rightarrow> bool" where
  "same_order_field (GStrMap m) (GStrMap m') = same_gomap m m'"
| "same_order_field v v' = (v = v')"

text \<open>
  One builder seen in two iteration orders of the maps that are ranged over; every other
  field is the same.
\<close>

definition same_builder :: "QueryBuilder \<Rightarrow> QueryBuilder \<Rightarrow> bool" where
  "same_builder qb qb' =
     (list_all2 same_gomap (WhereConditions qb) (WhereConditions qb')
      \<and> list_all2 same_order_field (OrderByFields qb) (OrderByFields qb')
      \<and> qb' = qb\<lparr>WhereConditions := WhereConditions qb',
                   OrderByFields := OrderByFields qb'\<rparr>)"



section \<open>GetOrCreate\<close>

text \<open>
  The connection is a collaborator (\<^verbatim>\<open>database/sql\<close>): \<open>QueryContext\<close> answers a
  statement with an error or a row set, \<open>ExecContext\<close> with an error or success. A row
  set has the outcome of \<^verbatim>\<open>rows.Columns()\<close> and, for each row that \<^verbatim>\<open>rows.Next()\<close>
  reaches, the outcome of \<^verbatim>\<open>rows.Scan\<close> on it. The calls made are recorded. The
  context argument and the deferred \<^verbatim>\<open>rows.Close()\<close> have no part in the result.
\<close>

record Rows =
  RowsColumns :: "string + string list"
  RowsData :: "(string + gvalue list) list"

record DB =
  QueryContext :: "string \<Rightarrow> gvalue list \<Rightarrow> string + Rows"
  ExecContext :: "string \<Rightarrow> gvalue list \<Rightarrow> string + unit"

datatype db_call = QueryCall string "gvalue list" | ExecCall string "gvalue list"

datatype failure =
    QueryFailed string
  | ColumnsFailed string
  | ScanFailed string
  | InsertFailed string

text \<open>\<^verbatim>\<open>BuildInsertQuery\<close> (lines 692-707).\<close>

definition BuildInsertQuery :: "QueryBuilder \<Rightarrow> gvalue gomap \<Rightarrow> string \<times> gvalue list" where
  "BuildInsertQuery qb data =
     (let columns = map fst data;
          placeholders = map (\<lambda>_. ''?'') data;
          vals = map snd data
      in (''INSERT INTO '' @ Table qb @ '' ('' @ join '', '' columns @ '') VALUES (''
            @ join '', '' placeholders @ '')'', vals))"

text \<open>Lines 672-675: the map of one scanned row, a later column of the same name winning.\<close>

definition row_map :: "string list \<Rightarrow> gvalue list \<Rightarrow> (string \<rightharpoonup> gvalue)" where
  "row_map columns columnsData =
     fold (\<lambda>(column, v) result. result(column \<mapsto> v)) (zip columns columnsData) Map.empty"

text \<open>
  \<^verbatim>\<open>GetOrCreate\<close> (lines 643-689). A panic of \<^verbatim>\<open>Build\<close> passes through; otherwise
  the result is the returned pair (a map or an error), the calls made on the connection
  and the builder after the call. The returned maps are read as finite maps.
\<close>

definition GetOrCreate ::
  "DB \<Rightarrow> QueryBuilder \<Rightarrow> gvalue gomap
     \<Rightarrow> panic + ((failure + (string \<rightharpoonup> gvalue)) \<times> db_call list \<times> QueryBuilder)" where
  "GetOrCreate db qb createData =
     (case Build qb of
        Inl p \<Rightarrow> Inl p
      | Inr (selectQuery, selectParams, qb1) \<Rightarrow>
          let calls = [QueryCall selectQuery selectParams] in
          (case QueryContext db selectQuery selectParams of
             Inl err \<Rightarrow> Inr (Inl (QueryFailed err), calls, qb1)
           | Inr rows \<Rightarrow>
               (case RowsColumns rows of
                  Inl err \<Rightarrow> Inr (Inl (ColumnsFailed err), calls, qb1)
                | Inr columns \<Rightarrow>
                    (case RowsData rows of
                       scan # _ \<Rightarrow>
                         (case scan of
                            Inl err \<Rightarrow> Inr (Inl (ScanFailed err), calls, qb1)
                          | Inr columnsData \<Rightarrow>
                              Inr (Inr (row_map columns columnsData), calls, qb1))
                     | [] \<Rightarrow>
                         (case BuildInsertQuery qb1 createData of
                            (insertQuery, insertParams) \<Rightarrow>
                              let calls = calls @ [ExecCall insertQuery insertParams] in
                              (case ExecContext db insertQuery insertParams of
                                 Inl err \<Rightarrow> Inr (Inl (InsertFailed err), calls, qb1)
                               | Inr _ \<Rightarrow> Inr (Inr (map_of createData), calls, qb1)))))))"

text \<open>Whether a value is a \<^verbatim>\<open>[]interface{}\<close>, which the type assertions ask for.\<close>

fun is_slice :: "gvalue \<Rightarrow> bool" where
  "is_slice (GSlice vals) = True"
| "is_slice _ = False"

section \<open>Example builders and connections\<close>

definition mixed_qb :: QueryBuilder where
  "mixed_qb =
     Cursor ''id'' (GInt 100)
       (Where [[(''status'', GStr ''active'')],
               [(''age'', GSlice [GInt 18, GInt 65]),
                (''role'', GSlice [GStr ''a'', GStr ''b'', GStr ''c''])]]
              [[], [(''age'', ''BETWEEN''), (''role'', ''IN'')]]
          (Select [''id''] (NewQueryBuilder ''users'' None)))"

definition between3_qb :: QueryBuilder where
  "between3_qb =
     Where [[(''age'', GSlice [GInt 1, GInt 2, GInt 3])]] [[(''age'', ''BETWEEN'')]]
       (Select [''id''] (NewQueryBuilder ''users'' None))"

definition optional_qb :: QueryBuilder where
  "optional_qb =
     Where [[(''status'', GStr ''active''), (''role'', GNil)], [(''age'', GNil)]]
           [[(''role'', ''IN'')], [(''age'', ''BETWEEN'')]]
       (Select [''id''] (NewQueryBuilder ''users'' None))"

definition all_nil_qb :: QueryBuilder where
  "all_nil_qb =
     Limit 5 (Where [[(''status'', GNil)], [(''age'', GNil)]] []
       (Select [''id''] (NewQueryBuilder ''users'' None)))"



definition ordered_qb :: QueryBuilder where
  "ordered_qb =
     OrderBy [GStrMap [(''a'', ''ASC''), (''b'', ''DESC'')]]
       (Where [[(''status'', GStr ''active'')]] [[]]
          (Select [''id''] (NewQueryBuilder ''t'' None)))"

definition found_db :: DB where
  "found_db =
     \<lparr> QueryContext = (\<lambda>query params.
          Inr \<lparr> RowsColumns = Inr [''id'', ''email''],
                RowsData = [Inr [GInt 7, GStr ''a@b.c''], Inr [GInt 9, GStr ''a@b.c'']] \<rparr>),
       ExecContext = (\<lambda>query params. Inl ''read only'') \<rparr>"

definition empty_db :: DB where
  "empty_db =
     \<lparr> QueryContext = (\<lambda>query params.
          Inr \<lparr> RowsColumns = Inr [''id'', ''email''], RowsData = [] \<rparr>),
       ExecContext = (\<lambda>query params. Inr ()) \<rparr>"

definition email_qb :: QueryBuilder where
  "email_qb =
     Where [[(''email'', GStr ''a@b.c'')]] [[]]
       (Select [''id'', ''email''] (NewQueryBuilder ''users'' None))"

section \<open>The structure of the text Build returns\<close>

lemmas builder_defs =
  Build_def Limit_def OrderBy_def Where_def Select_def Cursor_def NewQueryBuilder_def
  get_operator_def render_clause_def Operator_defs order_clauses_def sprint_d_def
  returned_def

lemma range_condition_acc:
  "range_condition ops i c wc ps =
     (case range_condition ops i c [] [] of
        Inl e \<Rightarrow> Inl e
      | Inr (wc', ps') \<Rightarrow> Inr (wc @ wc', ps @ ps'))"
proof (induction c arbitrary: wc ps)
  case Nil
  show ?case by simp
next
  case (Cons a c)
  obtain f v where a: "a = (f, v)" by (cases a)
  show ?case
  proof (cases "v = GNil")
    case True
    with a Cons.IH [of wc ps] show ?thesis by simp
  next
    case False
    show ?thesis
    proof (cases "render_clause f (get_operator ops i f) v")
      case (Inl e)
      with a False show ?thesis by simp
    next
      case (Inr r)
      obtain cl vs where r: "r = (cl, vs)" by (cases r)
      show ?thesis
        using a False Inr r Cons.IH [of "wc @ [cl]" "ps @ vs"] Cons.IH [of "[cl]" "vs"]
        by (simp split: sum.splits)
    qed
  qed
qed

lemma range_condition_entries:
  "range_condition ops i c [] [] =
     render_all (map (\<lambda>(field, v). (field, get_operator ops i field, v)) (filter not_nil c))"
proof (induction c)
  case Nil
  show ?case by simp
next
  case (Cons a c)
  obtain f v where a: "a = (f, v)" by (cases a)
  show ?case
  proof (cases "v = GNil")
    case True
    with a Cons.IH show ?thesis by (simp add: not_nil_def)
  next
    case False
    show ?thesis
    proof (cases "render_clause f (get_operator ops i f) v")
      case (Inl e)
      with a False show ?thesis by (simp add: not_nil_def)
    next
      case (Inr r)
      obtain cl vs where r: "r = (cl, vs)" by (cases r)
      show ?thesis
        using a False Inr r Cons.IH range_condition_acc [of ops i c "[cl]" vs]
        by (simp add: not_nil_def split: sum.splits)
    qed
  qed
qed

lemma render_all_append:
  "render_all (es @ fs) =
     (case render_all es of
        Inl e \<Rightarrow> Inl e
      | Inr (cs, ps) \<Rightarrow>
          (case render_all fs of
             Inl e \<Rightarrow> Inl e
           | Inr (cs', ps') \<Rightarrow> Inr (cs @ cs', ps @ ps')))"
  by (induction es) (auto split: sum.splits)

lemma range_conditions_acc:
  "range_conditions ops i cs wc ps =
     (case render_all (cond_entries ops i cs) of
        Inl e \<Rightarrow> Inl e
      | Inr (wc', ps') \<Rightarrow> Inr (wc @ wc', ps @ ps'))"
proof (induction cs arbitrary: i wc ps)
  case Nil
  show ?case by simp
next
  case (Cons c cs)
  show ?case
    using Cons.IH range_condition_acc [of ops i c wc ps] range_condition_entries [of ops i c]
    by (simp add: render_all_append split: sum.splits)
qed

text \<open>
  \<open>Build\<close> block by block: it panics exactly when an entry does, and otherwise the text
  is the head, the \<open>WHERE\<close> block, the \<open>ORDER BY\<close> block, the cursor block and the
  \<open>LIMIT\<close> block, in this order, and the parameters are those the builder held
  before, those of the entries and that of the cursor.
\<close>

lemma Build_blocks:
  "Build qb =
     (case render_all (entries qb) of
        Inl e \<Rightarrow> Inl e
      | Inr (wc, wps) \<Rightarrow>
          Inr (select_text qb
                 @ (if WhereConditions qb \<noteq> [] then ''WHERE '' @ join '' AND '' wc else [])
                 @ order_text qb @ cursor_text qb @ limit_text qb,
               Parameters qb @ wps @ cursor_params qb,
               qb\<lparr>Parameters := Parameters qb @ wps @ cursor_params qb\<rparr>))"
proof (cases "WhereConditions qb = []")
  case True
  then show ?thesis
    by (simp add: Build_def entries_def select_text_def order_text_def cursor_text_def
        cursor_params_def cursor_on_def limit_text_def Let_def)
next
  case False
  then show ?thesis
    by (simp add: Build_def entries_def select_text_def order_text_def cursor_text_def
        cursor_params_def cursor_on_def limit_text_def Let_def
        range_conditions_acc [of _ _ _ "[]" "Parameters qb"] split: sum.splits)
qed

section \<open>Fragments with explicit bindings\<close>

lemma erase_Nil [simp]: "erase [] = []"
  by (simp add: erase_def)

lemma erase_Cons [simp]: "erase (p # ps) = erase_piece p @ erase ps"
  by (simp add: erase_def)

lemma holes_Nil [simp]: "holes [] = []"
  by (simp add: holes_def)

lemma holes_Cons [simp]: "holes (p # ps) = hole_of p @ holes ps"
  by (simp add: holes_def)

lemma erase_append [simp]: "erase (ps @ qs) = erase ps @ erase qs"
  by (simp add: erase_def)

lemma holes_append [simp]: "holes (ps @ qs) = holes ps @ holes qs"
  by (simp add: holes_def)

lemma erase_intercalate:
  "erase (intercalate sep xs) = join (erase sep) (map erase xs)"
  by (induction sep xs rule: intercalate.induct) simp_all

lemma holes_intercalate:
  "holes sep = [] \<Longrightarrow> holes (intercalate sep xs) = concat (map holes xs)"
  by (induction sep xs rule: intercalate.induct) simp_all

lemma erase_hole_list:
  "erase (intercalate [Lit '', ''] (map (\<lambda>x. [Hole x]) vals))
     = join '', '' (replicate (length vals) ''?'')"
  by (simp add: erase_intercalate map_replicate_const [symmetric] comp_def)

lemma holes_hole_list:
  "holes (intercalate [Lit '', ''] (map (\<lambda>x. [Hole x]) vals)) = vals"
proof -
  have "concat (map (\<lambda>x. [x]) vals) = vals" by (induction vals) simp_all
  then show ?thesis by (simp add: holes_intercalate comp_def)
qed

lemma render_clause_spec:
  assumes "render_clause f op v = Inr (c, vs)" and "between_pair (f, op, v)"
  shows "c = erase (spec_clause (f, op, v)) \<and> vs = holes (spec_clause (f, op, v))"
proof -
  consider (inl) "op = OperatorIn \<or> op = OperatorNotIn"
    | (btw) "op \<noteq> OperatorIn" "op \<noteq> OperatorNotIn" "op = OperatorBetween"
    | (oth) "op \<noteq> OperatorIn" "op \<noteq> OperatorNotIn" "op \<noteq> OperatorBetween"
    by blast
  then show ?thesis
  proof cases
    case inl
    with assms(1) obtain vals where v: "v = GSlice vals"
      by (cases v) (auto simp: render_clause_def Operator_defs split: if_splits)
    from inl v assms(1) show ?thesis
      by (auto simp: render_clause_def spec_clause_def erase_hole_list holes_hole_list
          split: if_splits)
  next
    case btw
    with assms(1) obtain vals where v: "v = GSlice vals"
      by (cases v) (auto simp: render_clause_def split: if_splits)
    with btw assms(2) have "length vals = 2" by (simp add: between_pair_def)
    then obtain lo hi where vals: "vals = [lo, hi]"
      by (cases vals; cases "tl vals") auto
    from btw v vals assms(1) show ?thesis
      by (auto simp: render_clause_def spec_clause_def)
  next
    case oth
    with assms(1) show ?thesis
      by (auto simp: render_clause_def spec_clause_def split: if_splits)
  qed
qed

lemma render_all_spec:
  "render_all es = Inr (cs, ps) \<Longrightarrow> list_all between_pair es \<Longrightarrow>
     cs = map (\<lambda>e. erase (spec_clause e)) es \<and> ps = concat (map (\<lambda>e. holes (spec_clause e)) es)"
proof (induction es arbitrary: cs ps)
  case Nil
  then show ?case by simp
next
  case (Cons e es)
  obtain f op v where e: "e = (f, op, v)" by (cases e)
  from Cons.prems(1) e obtain c vs cs' ps' where
    r: "render_clause f op v = Inr (c, vs)" and ra: "render_all es = Inr (cs', ps')"
    and eq: "cs = c # cs'" "ps = vs @ ps'"
    by (auto split: sum.splits)
  from Cons.prems(2) e have b: "between_pair (f, op, v)" and bs: "list_all between_pair es"
    by simp_all
  from Cons.IH [OF ra bs] render_clause_spec [OF r b] eq e show ?case by simp
qed

lemma count_qmark_free: "qmark_free s \<Longrightarrow> count_list s CHR ''?'' = 0"
  by (simp add: qmark_free_def)

lemma count_erase:
  "list_all (\<lambda>p. qmark_free (lit_of p)) ps \<Longrightarrow> count_list (erase ps) CHR ''?'' = length (holes ps)"
proof (induction ps)
  case Nil
  show ?case by simp
next
  case (Cons p ps)
  then show ?case by (cases p) (simp_all add: count_qmark_free)
qed

lemma lits_intercalate:
  "list_all P sep \<Longrightarrow> list_all (list_all P) xs \<Longrightarrow> list_all P (intercalate sep xs)"
  by (induction sep xs rule: intercalate.induct) simp_all

lemma qmark_free_append [simp]: "qmark_free (s @ t) = (qmark_free s \<and> qmark_free t)"
  by (auto simp: qmark_free_def)

lemma qmark_free_Cons [simp]: "qmark_free (c # s) = (c \<noteq> CHR ''?'' \<and> qmark_free s)"
  by (auto simp: qmark_free_def)

lemma qmark_free_Nil [simp]: "qmark_free []"
  by (simp add: qmark_free_def)

lemma lits_hole_list:
  "list_all (\<lambda>p. qmark_free (lit_of p)) (intercalate [Lit '', ''] (map (\<lambda>x. [Hole x]) vals))"
  by (rule lits_intercalate) (simp_all add: list_all_iff)

lemma lits_spec_clause:
  "qmark_free f \<Longrightarrow> qmark_free op \<Longrightarrow>
     list_all (\<lambda>p. qmark_free (lit_of p)) (spec_clause (f, op, v))"
  by (auto simp: spec_clause_def lits_hole_list split: gvalue.splits list.splits)

lemma lits_spec_where:
  assumes "names_qmark_free qb"
  shows "list_all (\<lambda>p. qmark_free (lit_of p)) (spec_where qb)"
  unfolding spec_where_def
proof (rule lits_intercalate)
  show "list_all (\<lambda>p. qmark_free (lit_of p)) [Lit '' AND '']" by simp
  show "list_all (list_all (\<lambda>p. qmark_free (lit_of p))) (map spec_clause (entries qb))"
    unfolding list_all_iff
  proof
    fix ps assume "ps \<in> set (map spec_clause (entries qb))"
    then obtain e where e: "e \<in> set (entries qb)" and ps: "ps = spec_clause e" by auto
    obtain f op v where fov: "e = (f, op, v)" by (cases e)
    from assms e fov have "qmark_free f" "qmark_free op"
      by (auto simp: names_qmark_free_def list_all_iff)
    from lits_spec_clause [OF this] ps fov
    show "\<forall>p\<in>set ps. qmark_free (lit_of p)" by (simp add: list_all_iff)
  qed
qed

lemma lits_spec_cursor:
  "names_qmark_free qb \<Longrightarrow> list_all (\<lambda>p. qmark_free (lit_of p)) (spec_cursor qb)"
  by (simp add: spec_cursor_def names_qmark_free_def)

section \<open>Entries whose value is nil\<close>

lemma cond_entries_drop_nil:
  "cond_entries ops i (map (filter not_nil) cs) = cond_entries ops i cs"
  by (induction cs arbitrary: i) simp_all

lemma entries_drop_nil: "entries (drop_nil qb) = entries qb"
  by (simp add: entries_def drop_nil_def cond_entries_drop_nil)

lemma texts_drop_nil:
  "select_text (drop_nil qb) = select_text qb" "order_text (drop_nil qb) = order_text qb"
  "cursor_text (drop_nil qb) = cursor_text qb" "limit_text (drop_nil qb) = limit_text qb"
  "cursor_params (drop_nil qb) = cursor_params qb"
  by (simp_all add: drop_nil_def select_text_def order_text_def cursor_text_def
      limit_text_def cursor_params_def cursor_on_def)

lemma cond_entries_all_nil:
  "list_all (list_all (\<lambda>e. snd e = GNil)) cs \<Longrightarrow> cond_entries ops i cs = []"
proof (induction cs arbitrary: i)
  case Nil
  show ?case by simp
next
  case (Cons c cs)
  then have "filter not_nil c = []"
    by (auto simp: list_all_iff not_nil_def filter_empty_conv)
  with Cons show ?case by simp
qed

lemma digits_10: "digits 10 = ''10''"
  by code_simp






text \<open>The map of a scanned row, column by column.\<close>

lemma fold_update:
  "fold (\<lambda>(c, v) m. m(c \<mapsto> v)) xs m0 = m0 ++ map_of (rev xs)"
proof (induction xs arbitrary: m0)
  case Nil
  show ?case by simp
next
  case (Cons x xs)
  obtain c v where x: "x = (c, v)" by (cases x)
  have "fold (\<lambda>(c, v) m. m(c \<mapsto> v)) (x # xs) m0
          = fold (\<lambda>(c, v) m. m(c \<mapsto> v)) xs (m0(c \<mapsto> v))"
    by (simp only: x fold_simps comp_apply case_prod_conv)
  also have "\<dots> = m0(c \<mapsto> v) ++ map_of (rev xs)" by (rule Cons.IH)
  also have "\<dots> = m0 ++ (map_of [(c, v)] ++ map_of (rev xs))"
    by (rule ext) (simp add: map_add_def split: option.splits)
  also have "\<dots> = m0 ++ map_of (rev (x # xs))"
    by (simp only: x rev.simps map_of_append)
  finally show ?case .
qed

lemma row_map_map_of: "row_map cols d = map_of (rev (zip cols d))"
  by (simp add: row_map_def fold_update)

lemma row_map_dom: "length d = length cols \<Longrightarrow> dom (row_map cols d) = set cols"
proof -
  assume l: "length d = length cols"
  have "dom (row_map cols d) = fst ` set (zip cols d)"
    by (simp add: row_map_map_of dom_map_of_conv_image_fst)
  also have "\<dots> = set (map fst (zip cols d))" by simp
  also from l have "\<dots> = set cols" by (simp only: map_fst_zip)
  finally show ?thesis .
qed

lemma row_map_nth:
  assumes "length d = length cols" and "distinct cols" and "i < length cols"
  shows "row_map cols d (cols ! i) = Some (d ! i)"
proof -
  from assms(1,2) have "distinct (map fst (rev (zip cols d)))"
    by (simp add: rev_map [symmetric])
  moreover from assms(1,3) have "(cols ! i, d ! i) \<in> set (rev (zip cols d))"
    by (auto simp: set_zip)
  ultimately show ?thesis unfolding row_map_map_of by (rule map_of_is_SomeI)
qed

lemma Build_state:
  "Build qb = Inr (query, params, qb') \<Longrightarrow> qb' = qb\<lparr>Parameters := params\<rparr>"
  by (auto simp: Build_blocks split: sum.splits)

section \<open>Placeholders and parameters\<close>

text \<open>
  C1. Whatever the builder and however its maps are ranged over: if \<open>Build\<close> returns
  and every \<open>BETWEEN\<close> condition holds a sequence of exactly two values, then the text
  is the head, the \<open>WHERE\<close> clause, the \<open>ORDER BY\<close> clause, the cursor predicate and
  the \<open>LIMIT\<close> clause, where the \<open>WHERE\<close> clause and the cursor predicate are the
  specification's fragments with every hole written as \<open>?\<close>; the parameters appended
  are the values of these holes from left to right, so the i-th parameter is the value
  meant for the i-th placeholder; and when no field name, operator or cursor field
  contains a question mark, the number of \<open>?\<close> in the \<open>WHERE\<close> clause and the cursor
  predicate is the number of parameters appended.
\<close>

theorem Build_placeholders:
  assumes "Build qb = Inr (query, params, qb')" and "list_all between_pair (entries qb)"
  shows "query = select_text qb @ (if WhereConditions qb \<noteq> [] then ''WHERE '' else [])
                   @ erase (spec_where qb) @ order_text qb @ erase (spec_cursor qb)
                   @ limit_text qb
         \<and> params = Parameters qb @ holes (spec_where qb) @ holes (spec_cursor qb)
         \<and> (names_qmark_free qb \<longrightarrow>
              count_list (erase (spec_where qb) @ erase (spec_cursor qb)) CHR ''?''
                = length (holes (spec_where qb) @ holes (spec_cursor qb)))"
proof -
  from assms(1) obtain wc wps where
    ra: "render_all (entries qb) = Inr (wc, wps)"
    and q: "query = select_text qb
              @ (if WhereConditions qb \<noteq> [] then ''WHERE '' @ join '' AND '' wc else [])
              @ order_text qb @ cursor_text qb @ limit_text qb"
    and p: "params = Parameters qb @ wps @ cursor_params qb"
    by (auto simp: Build_blocks split: sum.splits)
  from render_all_spec [OF ra assms(2)]
  have wc: "wc = map (\<lambda>e. erase (spec_clause e)) (entries qb)"
    and wps: "wps = concat (map (\<lambda>e. holes (spec_clause e)) (entries qb))"
    by simp_all
  have w_text: "join '' AND '' wc = erase (spec_where qb)"
    by (simp add: wc spec_where_def erase_intercalate comp_def)
  have w_par: "wps = holes (spec_where qb)"
    by (simp add: wps spec_where_def holes_intercalate comp_def)
  have c_text: "cursor_text qb = erase (spec_cursor qb)"
    by (simp add: cursor_text_def spec_cursor_def)
  have c_par: "cursor_params qb = holes (spec_cursor qb)"
    by (simp add: cursor_params_def spec_cursor_def)
  have empty: "WhereConditions qb = [] \<Longrightarrow> erase (spec_where qb) = []"
    by (simp add: spec_where_def entries_def)
  have count: "names_qmark_free qb \<Longrightarrow>
      count_list (erase (spec_where qb) @ erase (spec_cursor qb)) CHR ''?''
        = length (holes (spec_where qb) @ holes (spec_cursor qb))"
    using count_erase [OF lits_spec_where] count_erase [OF lits_spec_cursor] by simp
  from q p w_text w_par c_text c_par empty count show ?thesis by simp
qed

text \<open>
  An equality, a \<open>BETWEEN\<close>, an \<open>IN\<close> of three values and a cursor: seven placeholders
  and seven parameters, in the same order.
\<close>

theorem Build_placeholders_witness:
  "list_all between_pair (entries mixed_qb) \<and> names_qmark_free mixed_qb
   \<and> returned (Build mixed_qb) =
       Inr (''SELECT id FROM users WHERE status = ? AND age BETWEEN ? AND ? AND role IN (?, ?, ?) AND id > ? '',
            [GStr ''active'', GInt 18, GInt 65, GStr ''a'', GStr ''b'', GStr ''c'', GInt 100])
   \<and> count_list (erase (spec_where mixed_qb) @ erase (spec_cursor mixed_qb)) CHR ''?'' = 7"
proof -
  have b: "Build mixed_qb =
      Inr (''SELECT id FROM users WHERE status = ? AND age BETWEEN ? AND ? AND role IN (?, ?, ?) AND id > ? '',
           [GStr ''active'', GInt 18, GInt 65, GStr ''a'', GStr ''b'', GStr ''c'', GInt 100],
           mixed_qb\<lparr>Parameters :=
             [GStr ''active'', GInt 18, GInt 65, GStr ''a'', GStr ''b'', GStr ''c'', GInt 100]\<rparr>)"
    by (simp add: mixed_qb_def builder_defs)
  have e: "entries mixed_qb =
      [(''status'', ''='', GStr ''active''), (''age'', ''BETWEEN'', GSlice [GInt 18, GInt 65]),
       (''role'', ''IN'', GSlice [GStr ''a'', GStr ''b'', GStr ''c''])]"
    by (simp add: mixed_qb_def entries_def builder_defs not_nil_def)
  have p: "list_all between_pair (entries mixed_qb)"
    by (simp add: e between_pair_def Operator_defs)
  have n: "names_qmark_free mixed_qb"
    by (simp add: names_qmark_free_def e) (simp add: mixed_qb_def builder_defs)
  from Build_placeholders [OF b p] n
  have "count_list (erase (spec_where mixed_qb) @ erase (spec_cursor mixed_qb)) CHR ''?''
          = length [GStr ''active'', GInt 18, GInt 65, GStr ''a'', GStr ''b'', GStr ''c'', GInt 100]"
    by (simp add: mixed_qb_def builder_defs)
  with b p n show ?thesis by (simp add: returned_def)
qed

text \<open>
  Without the two values the count fails: a \<open>BETWEEN\<close> over three values renders two
  placeholders and appends three parameters.
\<close>

theorem Build_placeholders_counterexample:
  "returned (Build between3_qb) =
     Inr (''SELECT id FROM users WHERE age BETWEEN ? AND ?'', [GInt 1, GInt 2, GInt 3])
   \<and> count_list ''SELECT id FROM users WHERE age BETWEEN ? AND ?'' CHR ''?''
       \<noteq> length [GInt 1, GInt 2, GInt 3]"
  by (simp add: between3_qb_def builder_defs)

section \<open>The cursor predicate\<close>

text \<open>
  C2. The cursor block comes after the \<open>ORDER BY\<close> block. With one condition, an
  ordering and a cursor, the text \<open>Build\<close> returns has the cursor predicate behind
  the \<open>ORDER BY\<close> clause, not as a further condition of the \<open>WHERE\<close> list.
\<close>

theorem Build_cursor_after_ORDER_BY:
  "returned (Build (Limit 10 (Cursor ''id'' (GInt 5) (OrderBy [GStr ''id ASC'']
        (Where [[(''status'', GStr ''active'')]] [[]]
           (Select [''id''] (NewQueryBuilder ''users'' None)))))))
   = Inr (''SELECT id FROM users WHERE status = ? ORDER BY id ASC AND id > ?  LIMIT 10'',
          [GStr ''active'', GInt 5])"
  by (simp add: builder_defs digits_10)

section \<open>Building twice\<close>




text \<open>
  The same holds for a map among the ORDER BY fields: with one-entry condition maps
  and a two-entry ordering map, the other iteration order gives another text.
\<close>

lemma Build_ORDER_BY_map_order:
  "Build ordered_qb =
     Inr (''SELECT id FROM t WHERE status = ? ORDER BY a ASC, b DESC'', [GStr ''active''],
          ordered_qb\<lparr>Parameters := [GStr ''active'']\<rparr>)
   \<and> list_all (\<lambda>c. length c \<le> 1) (WhereConditions ordered_qb)
   \<and> same_builder (ordered_qb\<lparr>Parameters := [GStr ''active'']\<rparr>)
        (ordered_qb\<lparr>Parameters := [GStr ''active''],
                    OrderByFields := [GStrMap [(''b'', ''DESC''), (''a'', ''ASC'')]]\<rparr>)
   \<and> returned (Build (ordered_qb\<lparr>Parameters := [GStr ''active''],
                    OrderByFields := [GStrMap [(''b'', ''DESC''), (''a'', ''ASC'')]]\<rparr>)) =
       Inr (''SELECT id FROM t WHERE status = ? ORDER BY b DESC, a ASC'',
            [GStr ''active'', GStr ''active''])"
  by (simp add: ordered_qb_def builder_defs same_builder_def same_gomap_def)
     (auto simp: ordered_qb_def builder_defs)

section \<open>Conditions whose value is nil\<close>

text \<open>
  C4. The entries whose value is nil leave no trace: \<open>Build\<close> returns the text and the
  parameters (or panics) exactly as it does on the builder from which these entries have
  been removed. In particular such an entry never fails, whatever its operator.
\<close>

theorem Build_drops_nil: "returned (Build qb) = returned (Build (drop_nil qb))"
proof -
  have w: "(WhereConditions (drop_nil qb) \<noteq> []) = (WhereConditions qb \<noteq> [])"
    and p: "Parameters (drop_nil qb) = Parameters qb"
    by (simp_all add: drop_nil_def)
  show ?thesis
    by (simp add: Build_blocks entries_drop_nil texts_drop_nil w p returned_def
        split: sum.splits)
qed

theorem Build_drops_nil_witness:
  "drop_nil optional_qb =
     optional_qb\<lparr>WhereConditions := [[(''status'', GStr ''active'')], []]\<rparr>
   \<and> returned (Build optional_qb) =
       Inr (''SELECT id FROM users WHERE status = ?'', [GStr ''active''])"
proof -
  have d: "drop_nil optional_qb =
      optional_qb\<lparr>WhereConditions := [[(''status'', GStr ''active'')], []]\<rparr>"
    by (simp add: drop_nil_def optional_qb_def builder_defs not_nil_def)
  have "returned (Build (optional_qb\<lparr>WhereConditions := [[(''status'', GStr ''active'')], []]\<rparr>))
      = Inr (''SELECT id FROM users WHERE status = ?'', [GStr ''active''])"
    by (simp add: optional_qb_def builder_defs)
  with Build_drops_nil [of optional_qb] d show ?thesis by simp
qed

section \<open>Sequences of the wrong length\<close>

text \<open>
  C5. \<open>Build\<close> does not look at the length of a \<open>BETWEEN\<close> sequence: for a sequence of
  any length it renders \<open>field BETWEEN ? AND ?\<close> and appends every value of the
  sequence. It fails, with a panic, only when the value is neither nil nor a sequence.
\<close>

theorem Build_BETWEEN_unchecked:
  "render_clause f OperatorBetween (GSlice vals) = Inr (f @ '' BETWEEN ? AND ?'', vals)
   \<and> returned (Build (Where [[(f, GSlice vals)]] [[(f, OperatorBetween)]]
                  (NewQueryBuilder t m))) =
       Inr (''SELECT  FROM '' @ t @ '' WHERE '' @ f @ '' BETWEEN ? AND ?'', vals)
   \<and> (v \<noteq> GNil \<and> \<not> is_slice v \<longrightarrow>
        Build (Where [[(f, v)]] [[(f, OperatorBetween)]] (NewQueryBuilder t m))
          = Inl TypeAssertion)"
  by (cases v) (simp_all add: builder_defs)

theorem Build_BETWEEN_unchecked_witness:
  "GInt 18 \<noteq> GNil \<and> \<not> is_slice (GInt 18)
   \<and> Build (Where [[(''age'', GInt 18)]] [[(''age'', OperatorBetween)]]
             (NewQueryBuilder ''users'' None)) = Inl TypeAssertion
   \<and> returned (Build (Where [[(''age'', GSlice [GInt 18, GInt 65])]]
                  [[(''age'', OperatorBetween)]] (NewQueryBuilder ''users'' None))) =
       Inr (''SELECT  FROM users WHERE age BETWEEN ? AND ?'', [GInt 18, GInt 65])"
  using Build_BETWEEN_unchecked [of "''age''" "[GInt 18, GInt 65]" "''users''" None "GInt 18"]
  by simp

text \<open>
  One value under \<open>BETWEEN\<close>: a statement is returned, with two placeholders for the
  one parameter.
\<close>

theorem Build_BETWEEN_counterexample:
  "returned (Build (Where [[(''age'', GSlice [GInt 18])]] [[(''age'', ''BETWEEN'')]]
               (NewQueryBuilder ''users'' None))) =
     Inr (''SELECT  FROM users WHERE age BETWEEN ? AND ?'', [GInt 18])
   \<and> count_list ''SELECT  FROM users WHERE age BETWEEN ? AND ?'' CHR ''?''
       \<noteq> length [GInt 18]"
  by (simp add: builder_defs)

text \<open>
  C6. \<open>Build\<close> does not reject an empty \<open>IN\<close> or \<open>NOT IN\<close> sequence: for a sequence
  of any length, zero included, it renders one placeholder for each value between the
  parentheses, separated by commas, and appends the values.
\<close>

theorem Build_IN_unchecked:
  "returned (Build (Where [[(f, GSlice vals)]] [[(f, OperatorIn)]] (NewQueryBuilder t m))) =
     Inr (''SELECT  FROM '' @ t @ '' WHERE '' @ f @ '' IN (''
            @ join '', '' (replicate (length vals) ''?'') @ '')'', vals)
   \<and> returned (Build (Where [[(f, GSlice vals)]] [[(f, OperatorNotIn)]]
                  (NewQueryBuilder t m))) =
       Inr (''SELECT  FROM '' @ t @ '' WHERE '' @ f @ '' NOT IN (''
              @ join '', '' (replicate (length vals) ''?'') @ '')'', vals)"
  by (simp add: builder_defs)

theorem Build_IN_unchecked_witness:
  "returned (Build (Where [[(''id'', GSlice [GInt 1, GInt 2, GInt 3])]] [[(''id'', OperatorIn)]]
               (NewQueryBuilder ''users'' None))) =
     Inr (''SELECT  FROM users WHERE id IN (?, ?, ?)'', [GInt 1, GInt 2, GInt 3])"
proof -
  have "join '', '' (replicate (length [GInt 1, GInt 2, GInt 3]) ''?'') = ''?, ?, ?''"
    by code_simp
  with Build_IN_unchecked [of "''id''" "[GInt 1, GInt 2, GInt 3]" "''users''" None]
  show ?thesis by simp
qed

text \<open>The empty sequence gives an empty pair of parentheses.\<close>

theorem Build_IN_empty_counterexample:
  "returned (Build (Where [[(''id'', GSlice [])]] [[(''id'', ''IN'')]]
               (NewQueryBuilder ''users'' None))) =
     Inr (''SELECT  FROM users WHERE id IN ()'', [])
   \<and> returned (Build (Where [[(''id'', GSlice [])]] [[(''id'', ''NOT IN'')]]
               (NewQueryBuilder ''users'' None))) =
     Inr (''SELECT  FROM users WHERE id NOT IN ()'', [])"
  by (simp add: builder_defs)

section \<open>Operators without a case of their own\<close>

text \<open>
  C7. An operator other than \<open>IN\<close>, \<open>NOT IN\<close> and \<open>BETWEEN\<close>, so also every
  unrecognized one, is written into the fragment as it is: the fragment is
  \<open>field OP ?\<close>, with one placeholder, and the value itself is the one parameter
  appended, as in the \<open>=\<close> case.
\<close>

theorem default_operator_verbatim:
  assumes "op \<notin> {OperatorIn, OperatorNotIn, OperatorBetween}" and "v \<noteq> GNil"
  shows "render_clause f op v = Inr (f @ '' '' @ op @ '' ?'', [v])
         \<and> map_sum id snd (render_clause f op v)
             = map_sum id snd (render_clause f OperatorEqual v)
         \<and> returned (Build (Where [[(f, v)]] [[(f, op)]] (NewQueryBuilder t m))) =
             Inr (''SELECT  FROM '' @ t @ '' WHERE '' @ f @ '' '' @ op @ '' ?'', [v])"
  using assms by (simp add: builder_defs)

theorem default_operator_verbatim_witness:
  "''>='' \<notin> {OperatorIn, OperatorNotIn, OperatorBetween} \<and> GInt 18 \<noteq> GNil
   \<and> returned (Build (Where [[(''age'', GInt 18)]] [[(''age'', ''>='')]]
                  (NewQueryBuilder ''users'' None))) =
       Inr (''SELECT  FROM users WHERE age >= ?'', [GInt 18])"
proof -
  have a: "''>='' \<notin> {OperatorIn, OperatorNotIn, OperatorBetween}"
    by (simp add: Operator_defs)
  have b: "GInt 18 \<noteq> GNil" by simp
  from default_operator_verbatim [OF a b, of "''age''" "''users''" None] a b
  show ?thesis by simp
qed

text \<open>
  \<open>NOT LIKE\<close>, a constant of the source without a case in the switch, is not
  rendered as an equality.
\<close>

theorem default_operator_counterexample:
  "returned (Build (Where [[(''name'', GStr ''a%'')]] [[(''name'', OperatorNotLike)]]
               (NewQueryBuilder ''users'' None))) =
     Inr (''SELECT  FROM users WHERE name NOT LIKE ?'', [GStr ''a%''])
   \<and> returned (Build (Where [[(''name'', GStr ''a%'')]] [[(''name'', OperatorEqual)]]
               (NewQueryBuilder ''users'' None))) =
     Inr (''SELECT  FROM users WHERE name = ?'', [GStr ''a%''])
   \<and> ''SELECT  FROM users WHERE name NOT LIKE ?'' \<noteq> ''SELECT  FROM users WHERE name = ?''"
  by (simp add: builder_defs)

section \<open>The worked example of the specification\<close>

text \<open>
  C8. On table \<open>users\<close>, selecting \<open>id\<close> and \<open>name\<close>, with the one condition
  \<open>status = "active"\<close> under an empty operator map, ordered by \<open>id ASC\<close> and limited
  to 10, \<open>Build\<close> returns the text
  \<open>SELECT id, name FROM users WHERE status = ? ORDER BY id ASC LIMIT 10\<close> and the
  parameter list \<open>["active"]\<close>.
\<close>

theorem Build_example:
  "returned
     (Build (Limit 10 (OrderBy [GStr ''id ASC'']
        (Where [[(''status'', GStr ''active'')]] [[]]
           (Select [''id'', ''name''] (NewQueryBuilder ''users'' None))))))
   = Inr (''SELECT id, name FROM users WHERE status = ? ORDER BY id ASC LIMIT 10'',
          [GStr ''active''])"
  by (simp add: builder_defs digits_10)

section \<open>Finding a record or creating it\<close>

text \<open>
  C9. When \<open>Build\<close> returns and the connection answers the \<open>SELECT\<close> with a row set
  whose columns can be read: if the row set has a first row and it scans, \<open>GetOrCreate\<close>
  returns the map of that row and the \<open>SELECT\<close> is the only call made. That map
  is the list of pairs of column name and scanned value, a later column of the same
  name winning; with one value for each column its keys are exactly the column names,
  and with distinct column names each name is mapped to the value scanned for it. If
  the row set is empty and the \<open>INSERT\<close> succeeds, the calls are the \<open>SELECT\<close> and
  the \<open>INSERT\<close> built from \<open>createData\<close> on the builder's table, and the map
  returned is \<open>createData\<close> itself.
\<close>

theorem GetOrCreate_found_or_created:
  assumes "Build qb = Inr (q, ps, qb1)"
    and "QueryContext db q ps = Inr rows"
    and "RowsColumns rows = Inr cols"
  shows "(\<forall>d rest. RowsData rows = Inr d # rest \<longrightarrow>
            GetOrCreate db qb createData
              = Inr (Inr (row_map cols d), [QueryCall q ps], qb1)
            \<and> row_map cols d = map_of (rev (zip cols d))
            \<and> (length d = length cols \<longrightarrow>
                  dom (row_map cols d) = set cols
                  \<and> (distinct cols \<longrightarrow>
                       (\<forall>i<length cols. row_map cols d (cols ! i) = Some (d ! i)))))
         \<and> (RowsData rows = []
              \<and> ExecContext db (fst (BuildInsertQuery qb1 createData))
                    (snd (BuildInsertQuery qb1 createData)) = Inr () \<longrightarrow>
            GetOrCreate db qb createData
              = Inr (Inr (map_of createData),
                     [QueryCall q ps,
                      ExecCall (fst (BuildInsertQuery qb1 createData))
                        (snd (BuildInsertQuery qb1 createData))],
                     qb1))
         \<and> BuildInsertQuery qb1 createData
             = (''INSERT INTO '' @ Table qb @ '' ('' @ join '', '' (map fst createData)
                  @ '') VALUES ('' @ join '', '' (replicate (length createData) ''?'') @ '')'',
                map snd createData)"
proof -
  from Build_state [OF assms(1)] have t: "Table qb1 = Table qb" by simp
  have ins: "BuildInsertQuery qb1 createData
      = (''INSERT INTO '' @ Table qb @ '' ('' @ join '', '' (map fst createData)
           @ '') VALUES ('' @ join '', '' (replicate (length createData) ''?'') @ '')'',
         map snd createData)"
    by (simp add: BuildInsertQuery_def t map_replicate_const)
  have found: "GetOrCreate db qb createData
              = Inr (Inr (row_map cols d), [QueryCall q ps], qb1)"
    if "RowsData rows = Inr d # rest" for d rest
    using assms that by (simp add: GetOrCreate_def)
  have row: "row_map cols d = map_of (rev (zip cols d))
            \<and> (length d = length cols \<longrightarrow>
                  dom (row_map cols d) = set cols
                  \<and> (distinct cols \<longrightarrow>
                       (\<forall>i<length cols. row_map cols d (cols ! i) = Some (d ! i))))" for d
    using row_map_map_of [of cols d] row_map_dom [of d cols] row_map_nth [of d cols]
    by blast
  from assms have created: "RowsData rows = []
              \<and> ExecContext db (fst (BuildInsertQuery qb1 createData))
                    (snd (BuildInsertQuery qb1 createData)) = Inr () \<longrightarrow>
            GetOrCreate db qb createData
              = Inr (Inr (map_of createData),
                     [QueryCall q ps,
                      ExecCall (fst (BuildInsertQuery qb1 createData))
                        (snd (BuildInsertQuery qb1 createData))],
                     qb1)"
    by (auto simp: GetOrCreate_def Let_def split: prod.splits)
  from found row created ins show ?thesis by blast
qed

theorem GetOrCreate_found_or_created_witness:
  "Build email_qb =
     Inr (''SELECT id, email FROM users WHERE email = ?'', [GStr ''a@b.c''],
          email_qb\<lparr>Parameters := [GStr ''a@b.c'']\<rparr>)
   \<and> GetOrCreate found_db email_qb [(''email'', GStr ''a@b.c'')] =
       Inr (Inr (row_map [''id'', ''email''] [GInt 7, GStr ''a@b.c'']),
            [QueryCall ''SELECT id, email FROM users WHERE email = ?'' [GStr ''a@b.c'']],
            email_qb\<lparr>Parameters := [GStr ''a@b.c'']\<rparr>)
   \<and> row_map [''id'', ''email''] [GInt 7, GStr ''a@b.c'']
       = [''id'' \<mapsto> GInt 7, ''email'' \<mapsto> GStr ''a@b.c'']
   \<and> dom (row_map [''id'', ''email''] [GInt 7, GStr ''a@b.c'']) = {''id'', ''email''}
   \<and> row_map [''id'', ''email''] [GInt 7, GStr ''a@b.c''] ''id'' = Some (GInt 7)
   \<and> row_map [''id'', ''email''] [GInt 7, GStr ''a@b.c''] ''email'' = Some (GStr ''a@b.c'')
   \<and> GetOrCreate empty_db email_qb [(''email'', GStr ''a@b.c'')] =
       Inr (Inr (map_of [(''email'', GStr ''a@b.c'')]),
            [QueryCall ''SELECT id, email FROM users WHERE email = ?'' [GStr ''a@b.c''],
             ExecCall ''INSERT INTO users (email) VALUES (?)'' [GStr ''a@b.c'']],
            email_qb\<lparr>Parameters := [GStr ''a@b.c'']\<rparr>)"
proof -
  let ?q = "''SELECT id, email FROM users WHERE email = ?''"
  let ?ps = "[GStr ''a@b.c'']"
  let ?C = "[''id'', ''email'']"
  let ?D = "[GInt 7, GStr ''a@b.c'']"
  have b: "Build email_qb = Inr (?q, ?ps, email_qb\<lparr>Parameters := ?ps\<rparr>)"
    by (simp add: email_qb_def builder_defs)
  have f: "QueryContext found_db ?q ?ps =
      Inr \<lparr> RowsColumns = Inr ?C,
            RowsData = [Inr ?D, Inr [GInt 9, GStr ''a@b.c'']] \<rparr>"
    by (simp add: found_db_def)
  have e: "QueryContext empty_db ?q ?ps =
      Inr \<lparr> RowsColumns = Inr ?C, RowsData = [] \<rparr>"
    by (simp add: empty_db_def)
  have i: "BuildInsertQuery (email_qb\<lparr>Parameters := ?ps\<rparr>) [(''email'', GStr ''a@b.c'')]
      = (''INSERT INTO users (email) VALUES (?)'', ?ps)"
    by (simp add: BuildInsertQuery_def email_qb_def builder_defs)
  have x: "ExecContext empty_db ''INSERT INTO users (email) VALUES (?)'' ?ps = Inr ()"
    by (simp add: empty_db_def)
  from GetOrCreate_found_or_created [OF b f, of ?C "[(''email'', GStr ''a@b.c'')]"]
  have found: "GetOrCreate found_db email_qb [(''email'', GStr ''a@b.c'')] =
       Inr (Inr (row_map ?C ?D), [QueryCall ?q ?ps], email_qb\<lparr>Parameters := ?ps\<rparr>)"
    and m: "row_map ?C ?D = [''id'' \<mapsto> GInt 7, ''email'' \<mapsto> GStr ''a@b.c'']"
    by simp_all
  from m have d: "dom (row_map ?C ?D) = {''id'', ''email''}"
    and k: "row_map ?C ?D ''id'' = Some (GInt 7)"
    "row_map ?C ?D ''email'' = Some (GStr ''a@b.c'')"
    by auto
  from GetOrCreate_found_or_created [OF b e, of ?C "[(''email'', GStr ''a@b.c'')]"] i x
  have created: "GetOrCreate empty_db email_qb [(''email'', GStr ''a@b.c'')] =
       Inr (Inr (map_of [(''email'', GStr ''a@b.c'')]),
            [QueryCall ?q ?ps, ExecCall ''INSERT INTO users (email) VALUES (?)'' ?ps],
            email_qb\<lparr>Parameters := ?ps\<rparr>)"
    by simp
  from b found m d k created show ?thesis by simp
qed

section \<open>A condition list with nothing to render\<close>

text \<open>
  C10. When the condition list is not empty and every value in it is nil, \<open>Build\<close>
  returns a text in which the keyword \<open>WHERE\<close> is followed by no condition, only by
  the \<open>ORDER BY\<close>, cursor and \<open>LIMIT\<close> blocks, and the loops append no parameter.
\<close>

theorem Build_dangling_WHERE:
  assumes "WhereConditions qb \<noteq> []"
    and "list_all (list_all (\<lambda>e. snd e = GNil)) (WhereConditions qb)"
  shows "returned (Build qb) =
           Inr (select_text qb @ ''WHERE '' @ order_text qb @ cursor_text qb @ limit_text qb,
                Parameters qb @ cursor_params qb)"
  using assms by (simp add: Build_blocks entries_def cond_entries_all_nil returned_def)

theorem Build_dangling_WHERE_witness:
  "WhereConditions all_nil_qb \<noteq> []
   \<and> list_all (list_all (\<lambda>e. snd e = GNil)) (WhereConditions all_nil_qb)
   \<and> returned (Build all_nil_qb) = Inr (''SELECT id FROM users WHERE  LIMIT 5'', [])"
proof -
  have a: "WhereConditions all_nil_qb \<noteq> []"
    and b: "list_all (list_all (\<lambda>e. snd e = GNil)) (WhereConditions all_nil_qb)"
    by (simp_all add: all_nil_qb_def builder_defs)
  have "digits 5 = ''5''" by code_simp
  then have "select_text all_nil_qb @ ''WHERE '' @ order_text all_nil_qb
        @ cursor_text all_nil_qb @ limit_text all_nil_qb = ''SELECT id FROM users WHERE  LIMIT 5''"
    and "Parameters all_nil_qb @ cursor_params all_nil_qb = []"
    by (simp_all add: all_nil_qb_def builder_defs select_text_def order_text_def
        cursor_text_def cursor_on_def limit_text_def cursor_params_def)
  with Build_dangling_WHERE [OF a b] a b show ?thesis by simp
qed

end
